theory Spec2Isabelle
  imports Main
begin

section \<open>The ADR-Manager store (src/plugins/store.js)\<close>

text \<open>
  The store is a Vue instance holding five data fields and a set of methods that mutate
  them and the repository and ADR objects reachable from them. JavaScript compares objects
  by reference, and several methods mutate an object that is reachable along more than one
  route (the currently edited ADR is also an element of its repository's \<open>adrs\<close>), so the
  model keeps an explicit object store: an object is named by a reference, and its fields
  are read and written through the store.

  Modelled are \<open>reload\<close>, \<open>updateLocalStorageRepositories\<close>, \<open>addRepositories\<close>,
  \<open>removeRepository\<close>, \<open>updateRepository\<close>, \<open>assertSomeAdrIsOpened\<close>, \<open>openAnyAdr\<close>,
  \<open>openAdr\<close>, \<open>createNewAdr\<close>, \<open>deleteAdr\<close> and \<open>setMode\<close>, with \<open>isValidRepoList\<close> and
  \<open>isValidAdr\<close>. The methods \<open>openAdrBy\<close>, \<open>updateMdOfCurrentAdr\<close> and \<open>setActiveBranch\<close>
  are not: no property below is about them. Console output is left out.
\<close>

subsection \<open>Values and objects\<close>

type_synonym ref = nat

text \<open>
  An own property of a JavaScript object is either absent, or present holding
  \<open>undefined\<close>, or present holding a value. Lodash's \<open>_.has\<close> asks for presence; reading the
  property yields \<open>undefined\<close> in the first two cases.
\<close>

datatype 'a property = Absent | Undefined | Value 'a

fun has :: "'a property \<Rightarrow> bool" where
  "has Absent = False"
| "has Undefined = True"
| "has (Value v) = True"

fun valueOf :: "'a property \<Rightarrow> 'a option" where
  "valueOf Absent = None"
| "valueOf Undefined = None"
| "valueOf (Value v) = Some v"

text \<open>
  Modelled from the spec: the classes \<open>ArchitecturalDecisionRecord\<close> and \<open>Repository\<close> of
  \<open>./classes\<close>, which the store imports and whose source is not part of \<open>store.js\<close>. Section 3 of the specification gives their
  fields: an ADR has \<open>id\<close> (a non-negative integer), \<open>path\<close>, \<open>originalMd\<close> and \<open>editedMd\<close>;
  a repository has \<open>fullName\<close>, \<open>activeBranch\<close>, \<open>adrs\<close> and optionally \<open>addedAdrs\<close> and
  \<open>deletedAdrs\<close>. The three fields that \<open>isValidAdr\<close> tests for presence are properties in
  the sense above. A repository owns its arrays (no array is shared between two
  repositories or two fields), so they are stored inside the repository object; their
  elements are references to ADR objects, which may be shared. The field
  \<open>instanceOfRepository\<close> records whether the object was built by the \<open>Repository\<close>
  constructor, which is what \<open>repo instanceof Repository\<close> reads.
\<close>

record adr =
  originalMd :: "string property"
  editedMd :: "string property"
  adr_id :: nat
  path :: "string property"

text \<open>
  Modelled from the spec: the class \<open>Repository\<close> of \<open>./classes\<close>, with the fields of
  Section 3 of the specification and the tag read by \<open>instanceof\<close>.
\<close>

record repository =
  fullName :: string
  activeBranch :: string
  adrs :: "ref list"
  addedAdrs :: "ref list option"
  deletedAdrs :: "ref list option"
  instanceOfRepository :: bool

subsection \<open>The persistence bridge\<close>

text \<open>
  \<open>localStorage\<close> has two slots, \<open>'addedRepositories'\<close> and \<open>'mode'\<close>. The text kept under
  \<open>'addedRepositories'\<close> is always written by \<open>JSON.stringify\<close> of the repository list; it
  is modelled by the JSON document it denotes. \<open>JSON.stringify\<close> leaves out a property
  that holds \<open>undefined\<close>, so each of the three optional members is \<open>None\<close> when the
  key is missing from the text.
\<close>

record jadr =
  j_originalMd :: "string option"
  j_editedMd :: "string option"
  j_id :: nat
  j_path :: "string option"

record jrepo =
  j_fullName :: string
  j_activeBranch :: string
  j_adrs :: "jadr list"
  j_addedAdrs :: "jadr list option"
  j_deletedAdrs :: "jadr list option"

record storage =
  item_addedRepositories :: "jrepo list option"
  item_mode :: "string option"

subsection \<open>The store\<close>

datatype event = OpenAdr "ref option" | SetMode string

datatype exn = Thrown string | TypeError

datatype 'a completion = Normal 'a | Throw exn

text \<open>
  The first five fields are the \<open>data\<close> of the Vue instance. \<open>adrObjects\<close> and
  \<open>repoObjects\<close> are the object store, \<open>nextAdr\<close> and \<open>nextRepo\<close> the references the
  next \<open>{...}\<close> literal or \<open>JSON.parse\<close> will allocate, \<open>localStorage\<close> the persistence
  bridge, and \<open>emitted\<close> the events passed to \<open>$emit\<close>, oldest first.
\<close>

record store =
  currentRepository :: "ref option"
  currentBranch :: "string option"
  currentlyEditedAdr :: "ref option"
  addedRepositories :: "ref list"
  mode :: string
  adrObjects :: "ref \<Rightarrow> adr"
  repoObjects :: "ref \<Rightarrow> repository"
  nextAdr :: ref
  nextRepo :: ref
  localStorage :: storage
  emitted :: "event list"

subsection \<open>Array methods\<close>

text \<open>\<open>xs.includes(v)\<close> for an array of objects; \<open>None\<close> is the argument \<open>undefined\<close>.\<close>

fun includes_ref :: "ref list \<Rightarrow> ref option \<Rightarrow> bool" where
  "includes_ref xs None = False"
| "includes_ref xs (Some a) = (a \<in> set xs)"

text \<open>\<open>xs.findIndex(p)\<close>: the index of the first match, or \<open>-1\<close>.\<close>

fun findIndexFrom :: "int \<Rightarrow> ('a \<Rightarrow> bool) \<Rightarrow> 'a list \<Rightarrow> int" where
  "findIndexFrom i p [] = -1"
| "findIndexFrom i p (x # xs) = (if p x then i else findIndexFrom (i + 1) p xs)"

definition findIndex :: "('a \<Rightarrow> bool) \<Rightarrow> 'a list \<Rightarrow> int" where
  "findIndex p xs = findIndexFrom 0 p xs"

text \<open>\<open>xs[i]\<close>: \<open>undefined\<close> outside the array.\<close>

definition at :: "'a list \<Rightarrow> int \<Rightarrow> 'a option" where
  "at xs i = (if 0 \<le> i \<and> i < int (length xs) then Some (xs ! nat i) else None)"

text \<open>
  \<open>xs.splice(start, deleteCount, ...items)\<close>: a negative \<open>start\<close> counts from the end.
  The result is the removed elements and the array as it is afterwards.
\<close>

definition splice_array :: "int \<Rightarrow> int \<Rightarrow> 'a list \<Rightarrow> 'a list \<Rightarrow> 'a list \<times> 'a list" where
  "splice_array start deleteCount items xs =
     (let len = int (length xs);
          actualStart = (if start < 0 then max (len + start) 0 else min start len);
          actualDeleteCount = min (max deleteCount 0) (len - actualStart);
          a = nat actualStart;
          d = nat actualDeleteCount
      in (take d (drop a xs), take a xs @ items @ drop (a + d) xs))"

text \<open>\<open>xs.join(sep)\<close> for an array of strings.\<close>

fun join :: "string \<Rightarrow> string list \<Rightarrow> string" where
  "join sep [] = []"
| "join sep [x] = x"
| "join sep (x # y # ys) = x @ sep @ join sep (y # ys)"

subsection \<open>Validation helpers\<close>

definition isValidAdrObject :: "adr \<Rightarrow> bool" where
  "isValidAdrObject a \<longleftrightarrow> has (originalMd a) \<and> has (editedMd a) \<and> has (path a)"

text \<open>\<open>_.has(undefined, key)\<close> is false.\<close>

fun isValidAdr :: "store \<Rightarrow> ref option \<Rightarrow> bool" where
  "isValidAdr s None = False"
| "isValidAdr s (Some a) = isValidAdrObject (adrObjects s a)"


subsection \<open>Persisting the repository list\<close>

definition stringifyAdr :: "adr \<Rightarrow> jadr" where
  "stringifyAdr a =
     \<lparr>j_originalMd = valueOf (originalMd a), j_editedMd = valueOf (editedMd a),
      j_id = adr_id a, j_path = valueOf (path a)\<rparr>"

definition stringifyRepo :: "store \<Rightarrow> ref \<Rightarrow> jrepo" where
  "stringifyRepo s r =
     (let repo = repoObjects s r;
          ser = map (\<lambda>a. stringifyAdr (adrObjects s a))
      in \<lparr>j_fullName = fullName repo, j_activeBranch = activeBranch repo,
          j_adrs = ser (adrs repo), j_addedAdrs = map_option ser (addedAdrs repo),
          j_deletedAdrs = map_option ser (deletedAdrs repo)\<rparr>)"

definition JSON_stringify :: "store \<Rightarrow> ref list \<Rightarrow> jrepo list" where
  "JSON_stringify s repos = map (stringifyRepo s) repos"

definition updateLocalStorageRepositories :: "store \<Rightarrow> store" where
  "updateLocalStorageRepositories s =
     s\<lparr>localStorage := (localStorage s)
          \<lparr>item_addedRepositories := Some (JSON_stringify s (addedRepositories s))\<rparr>\<rparr>"

subsection \<open>Opening an ADR\<close>

definition openAdr :: "ref option \<Rightarrow> store \<Rightarrow> store" where
  "openAdr a s =
     (if a \<noteq> currentlyEditedAdr s then
        (let repo = find (\<lambda>repo. includes_ref (adrs (repoObjects s repo)) a) (addedRepositories s)
         in if isValidAdr s a \<and> repo \<noteq> None then
              s\<lparr>currentRepository := repo,
                currentBranch := map_option (\<lambda>r. activeBranch (repoObjects s r)) repo,
                currentlyEditedAdr := a,
                emitted := emitted s @ [OpenAdr a]\<rparr>
            else s)
      else s)"

definition openAnyAdr :: "store \<Rightarrow> store" where
  "openAnyAdr s =
     (let reposWithAdrs = filter (\<lambda>repo. adrs (repoObjects s repo) \<noteq> []) (addedRepositories s)
      in case reposWithAdrs of
           [] \<Rightarrow> s
         | r # _ \<Rightarrow> openAdr (at (adrs (repoObjects s r)) 0) s)"

definition assertSomeAdrIsOpened :: "store \<Rightarrow> store" where
  "assertSomeAdrIsOpened s =
     (if currentlyEditedAdr s = None
         \<or> \<not> isValidAdr s (currentlyEditedAdr s)
         \<or> \<not> list_ex (\<lambda>repo. includes_ref (adrs (repoObjects s repo)) (currentlyEditedAdr s))
               (addedRepositories s)
      then openAnyAdr (s\<lparr>currentlyEditedAdr := None, currentRepository := None,
                         currentBranch := None\<rparr>)
      else s)"

subsection \<open>Adding, removing and replacing repositories\<close>

definition alreadyAddedMessage :: string where
  "alreadyAddedMessage = ''I won't add an already added repository to the store! ''"

definition addRepositories :: "ref list \<Rightarrow> store \<Rightarrow> unit completion \<times> store" where
  "addRepositories repoList s =
     (let alreadyAddedRepos =
            filter (\<lambda>repoToAdd. fullName (repoObjects s repoToAdd)
                       \<in> set (map (\<lambda>repo. fullName (repoObjects s repo)) (addedRepositories s)))
              repoList
      in if length alreadyAddedRepos > 0 then
           (Throw (Thrown (alreadyAddedMessage
               @ join '', '' (map (\<lambda>repo. fullName (repoObjects s repo)) alreadyAddedRepos))), s)
         else
           (Normal (),
            assertSomeAdrIsOpened (updateLocalStorageRepositories
              (s\<lparr>addedRepositories := addedRepositories s @ repoList\<rparr>))))"

definition removeRepository :: "ref \<Rightarrow> store \<Rightarrow> store" where
  "removeRepository repoToRemove s =
     updateLocalStorageRepositories (assertSomeAdrIsOpened
       (s\<lparr>addedRepositories :=
            filter (\<lambda>repo. fullName (repoObjects s repo) \<noteq> fullName (repoObjects s repoToRemove))
              (addedRepositories s)\<rparr>))"

subsection \<open>The mode\<close>

definition setMode :: "string \<Rightarrow> store \<Rightarrow> store" where
  "setMode m s =
     (if m \<in> set [''basic'', ''advanced'', ''professional''] then
        s\<lparr>mode := m,
          localStorage := (localStorage s)\<lparr>item_mode := Some m\<rparr>,
          emitted := emitted s @ [SetMode m]\<rparr>
      else s)"

subsection \<open>Creating and deleting ADRs\<close>

text \<open>\<open>Math.max(...xs, y)\<close> on integers.\<close>

definition Math_max :: "int list \<Rightarrow> int \<Rightarrow> int" where
  "Math_max xs y = foldr max xs y"

text \<open>\<open>n.toString()\<close> for an integer: decimal digits, with a minus sign when negative.\<close>

definition digit :: "nat \<Rightarrow> char" where
  "digit d = ''0123456789'' ! d"

fun decimal :: "nat \<Rightarrow> string" where
  "decimal n = (if n < 10 then [digit n] else decimal (n div 10) @ [digit (n mod 10)])"

declare decimal.simps [simp del]

definition toString :: "int \<Rightarrow> string" where
  "toString i = (if i < 0 then CHR ''-'' # decimal (nat (- i)) else decimal (nat i))"

definition padStart :: "nat \<Rightarrow> char \<Rightarrow> string \<Rightarrow> string" where
  "padStart n c str = replicate (n - length str) c @ str"

text \<open>
  The parameter \<open>md\<close> is the text \<open>adr2md(new ArchitecturalDecisionRecord())\<close>, produced
  by the parser, which is outside the store. The result is the new ADR, or \<open>None\<close> for
  \<open>undefined\<close>.
\<close>

definition createNewAdr :: "string \<Rightarrow> ref \<Rightarrow> store \<Rightarrow> ref option \<times> store" where
  "createNewAdr md repo s =
     (if repo \<in> set (addedRepositories s) then
        (let r = repoObjects s repo;
             newId = Math_max (map (\<lambda>a. int (adr_id (adrObjects s a))) (adrs r)) (- 1) + 1;
             newAdr = nextAdr s;
             object = \<lparr>originalMd = Undefined, editedMd = Value md, adr_id = nat newId,
                       path = Value (''docs/adr/'' @ padStart 4 CHR ''0'' (toString newId)
                                      @ ''-unnamed.md'')\<rparr>;
             r1 = r\<lparr>adrs := adrs r @ [newAdr]\<rparr>;
             r2 = (if addedAdrs r1 = None then r1\<lparr>addedAdrs := Some []\<rparr> else r1);
             r3 = r2\<lparr>addedAdrs := map_option (\<lambda>xs. xs @ [newAdr]) (addedAdrs r2)\<rparr>
         in (Some newAdr,
             s\<lparr>adrObjects := (adrObjects s)(newAdr := object), nextAdr := Suc newAdr,
               repoObjects := (repoObjects s)(repo := r3)\<rparr>))
      else (None, updateLocalStorageRepositories s))"

text \<open>
  \<open>deleteAdr\<close> evaluates \<open>repo.deletedAdrs.concat(...)\<close>, which builds a new array, and
  drops the result; the binding \<open>concatenated\<close> is that unused array.
\<close>

definition deleteAdr :: "ref option \<Rightarrow> ref \<Rightarrow> store \<Rightarrow> store" where
  "deleteAdr a repo s =
     (let r = repoObjects s repo;
          adrIndex = findIndex (\<lambda>adrEl. Some adrEl = a) (adrs r);
          r1 = (if deletedAdrs r = None then r\<lparr>deletedAdrs := Some []\<rparr> else r);
          (removed, remaining) = splice_array adrIndex 1 [] (adrs r1);
          concatenated = map_option (\<lambda>xs. xs @ removed) (deletedAdrs r1);
          r2 = r1\<lparr>adrs := remaining\<rparr>
      in assertSomeAdrIsOpened (s\<lparr>repoObjects := (repoObjects s)(repo := r2)\<rparr>))"

subsection \<open>Replacing a repository\<close>

text \<open>
  When no added repository has the name, \<open>index\<close> is \<open>-1\<close> and \<open>oldRepo\<close> is
  \<open>undefined\<close>: the splice has happened when \<open>oldRepo.adrs\<close> raises the TypeError.
\<close>

definition updateRepository :: "ref \<Rightarrow> store \<Rightarrow> unit completion \<times> store" where
  "updateRepository updatedRepository s =
     (let index = findIndex (\<lambda>repo. fullName (repoObjects s repo)
                                   = fullName (repoObjects s updatedRepository))
                    (addedRepositories s);
          oldRepo = at (addedRepositories s) index;
          s1 = s\<lparr>addedRepositories :=
                   snd (splice_array index 1 [updatedRepository] (addedRepositories s))\<rparr>
      in case oldRepo of
           None \<Rightarrow> (Throw TypeError, s1)
         | Some old \<Rightarrow>
             if includes_ref (adrs (repoObjects s1 old)) (currentlyEditedAdr s1) then
               (case currentlyEditedAdr s1 of
                  None \<Rightarrow> (Throw TypeError, s1)
                | Some current \<Rightarrow>
                    (Normal (), updateLocalStorageRepositories
                       (openAdr (find (\<lambda>a. valueOf (path (adrObjects s1 a))
                                           = valueOf (path (adrObjects s1 current)))
                                   (adrs (repoObjects s1 updatedRepository))) s1)))
             else (Normal (), updateLocalStorageRepositories s1))"

subsection \<open>Loading from the persistence bridge\<close>









text \<open>
  The store as \<open>data\<close> initialises it, before \<open>created\<close> runs \<open>reload\<close>, in a page whose
  \<open>localStorage\<close> is \<open>ls\<close> and which has allocated no object yet.
\<close>

definition noAdr :: adr where
  "noAdr = \<lparr>originalMd = Absent, editedMd = Absent, adr_id = 0, path = Absent\<rparr>"

definition noRepository :: repository where
  "noRepository = \<lparr>fullName = [], activeBranch = [], adrs = [], addedAdrs = None,
                   deletedAdrs = None, instanceOfRepository = False\<rparr>"


subsection \<open>The selection\<close>

text \<open>
  The three selection fields are cleared when all of them hold \<open>undefined\<close>. The ADR
  \<open>a\<close> of repository \<open>r\<close> is selected when \<open>a\<close> is the currently edited ADR and is
  valid, \<open>r\<close> is an added repository whose \<open>adrs\<close> contains \<open>a\<close>, \<open>r\<close> is the current
  repository and \<open>currentBranch\<close> is the \<open>activeBranch\<close> of \<open>r\<close>. The selection
  invariant of the store says that a currently edited ADR, when there is one, is selected
  in this sense together with the current repository.
\<close>

definition selectionCleared :: "store \<Rightarrow> bool" where
  "selectionCleared s \<longleftrightarrow>
     currentlyEditedAdr s = None \<and> currentRepository s = None \<and> currentBranch s = None"

definition selected :: "ref \<Rightarrow> ref \<Rightarrow> store \<Rightarrow> bool" where
  "selected a r s \<longleftrightarrow>
     currentlyEditedAdr s = Some a \<and> isValidAdr s (Some a)
     \<and> r \<in> set (addedRepositories s) \<and> a \<in> set (adrs (repoObjects s r))
     \<and> currentRepository s = Some r
     \<and> currentBranch s = Some (activeBranch (repoObjects s r))"

definition selectionInvariant :: "store \<Rightarrow> bool" where
  "selectionInvariant s \<longleftrightarrow>
     (case currentlyEditedAdr s of
        None \<Rightarrow> True
      | Some a \<Rightarrow> (case currentRepository s of None \<Rightarrow> False | Some r \<Rightarrow> selected a r s))"

subsection \<open>Equivalent repository lists\<close>






subsection \<open>Zero-padded decimal numerals\<close>



subsection \<open>Example stores\<close>

text \<open>
  Three ADR objects and four repository objects on which the statements below are
  evaluated. ADR 1 lacks \<open>originalMd\<close> and is therefore not valid. Repository 1 has the
  name of repository 0 and no ADR; repository 2 starts with the invalid ADR; repository 3
  holds the valid ADR 2.
\<close>

definition adrInit :: adr where
  "adrInit = \<lparr>originalMd = Value ''x'', editedMd = Value ''x'', adr_id = 0,
              path = Value ''docs/adr/0000-init.md''\<rparr>"

definition adrDraft :: adr where
  "adrDraft = \<lparr>originalMd = Absent, editedMd = Value ''draft'', adr_id = 5,
               path = Value ''docs/adr/0005-draft.md''\<rparr>"

definition adrSecond :: adr where
  "adrSecond = \<lparr>originalMd = Value ''y'', editedMd = Value ''z'', adr_id = 7,
                path = Value ''docs/adr/0007-second.md''\<rparr>"

definition demoAdrs :: "ref \<Rightarrow> adr" where
  "demoAdrs = (\<lambda>_. noAdr)(0 := adrInit, 1 := adrDraft, 2 := adrSecond)"

definition repoOne :: repository where
  "repoOne = \<lparr>fullName = ''org/repo'', activeBranch = ''main'', adrs = [0],
              addedAdrs = None, deletedAdrs = None, instanceOfRepository = True\<rparr>"

definition repoOneUpdated :: repository where
  "repoOneUpdated = \<lparr>fullName = ''org/repo'', activeBranch = ''main'', adrs = [],
                     addedAdrs = None, deletedAdrs = None, instanceOfRepository = True\<rparr>"

definition repoDrafts :: repository where
  "repoDrafts = \<lparr>fullName = ''org/drafts'', activeBranch = ''dev'', adrs = [1, 2],
                 addedAdrs = None, deletedAdrs = None, instanceOfRepository = True\<rparr>"

definition repoOther :: repository where
  "repoOther = \<lparr>fullName = ''org/other'', activeBranch = ''trunk'', adrs = [2],
                addedAdrs = Some [], deletedAdrs = Some [], instanceOfRepository = True\<rparr>"

definition demoRepos :: "ref \<Rightarrow> repository" where
  "demoRepos = (\<lambda>_. noRepository)
     (0 := repoOne, 1 := repoOneUpdated, 2 := repoDrafts, 3 := repoOther)"

definition emptyStorage :: storage where
  "emptyStorage = \<lparr>item_addedRepositories = None, item_mode = None\<rparr>"

text \<open>
  A store in which ADR 0 of repository 0 is open; \<open>added\<close> is the list of added
  repositories.
\<close>

definition demoStore :: "ref list \<Rightarrow> store" where
  "demoStore added =
     \<lparr>currentRepository = Some 0, currentBranch = Some ''main'',
      currentlyEditedAdr = Some 0, addedRepositories = added, mode = ''basic'',
      adrObjects = demoAdrs, repoObjects = demoRepos, nextAdr = 3, nextRepo = 4,
      localStorage = emptyStorage, emitted = []\<rparr>"

lemmas demo_defs =
  demoStore_def demoAdrs_def demoRepos_def adrInit_def adrDraft_def adrSecond_def
  repoOne_def repoOneUpdated_def repoDrafts_def repoOther_def emptyStorage_def
  noAdr_def noRepository_def

section \<open>Auxiliary facts\<close>

subsection \<open>What the selection methods leave alone\<close>

lemma openAdr_frame [simp]:
  "addedRepositories (openAdr a s) = addedRepositories s"
  "adrObjects (openAdr a s) = adrObjects s"
  "repoObjects (openAdr a s) = repoObjects s"
  "localStorage (openAdr a s) = localStorage s"
  "mode (openAdr a s) = mode s"
  "nextAdr (openAdr a s) = nextAdr s"
  "nextRepo (openAdr a s) = nextRepo s"
  by (simp_all add: openAdr_def Let_def)

lemma openAnyAdr_frame [simp]:
  "addedRepositories (openAnyAdr s) = addedRepositories s"
  "adrObjects (openAnyAdr s) = adrObjects s"
  "repoObjects (openAnyAdr s) = repoObjects s"
  "localStorage (openAnyAdr s) = localStorage s"
  "mode (openAnyAdr s) = mode s"
  "nextAdr (openAnyAdr s) = nextAdr s"
  "nextRepo (openAnyAdr s) = nextRepo s"
  by (simp_all add: openAnyAdr_def Let_def split: list.splits)

lemma assertSomeAdrIsOpened_frame [simp]:
  "addedRepositories (assertSomeAdrIsOpened s) = addedRepositories s"
  "adrObjects (assertSomeAdrIsOpened s) = adrObjects s"
  "repoObjects (assertSomeAdrIsOpened s) = repoObjects s"
  "localStorage (assertSomeAdrIsOpened s) = localStorage s"
  "mode (assertSomeAdrIsOpened s) = mode s"
  "nextAdr (assertSomeAdrIsOpened s) = nextAdr s"
  "nextRepo (assertSomeAdrIsOpened s) = nextRepo s"
  by (simp_all add: assertSomeAdrIsOpened_def)

lemma updateLocalStorageRepositories_frame [simp]:
  "addedRepositories (updateLocalStorageRepositories s) = addedRepositories s"
  "adrObjects (updateLocalStorageRepositories s) = adrObjects s"
  "repoObjects (updateLocalStorageRepositories s) = repoObjects s"
  "currentlyEditedAdr (updateLocalStorageRepositories s) = currentlyEditedAdr s"
  "currentRepository (updateLocalStorageRepositories s) = currentRepository s"
  "currentBranch (updateLocalStorageRepositories s) = currentBranch s"
  "mode (updateLocalStorageRepositories s) = mode s"
  "emitted (updateLocalStorageRepositories s) = emitted s"
  "nextAdr (updateLocalStorageRepositories s) = nextAdr s"
  "nextRepo (updateLocalStorageRepositories s) = nextRepo s"
  "item_mode (localStorage (updateLocalStorageRepositories s)) = item_mode (localStorage s)"
  by (simp_all add: updateLocalStorageRepositories_def)

subsection \<open>Array methods\<close>

text \<open>Facts about \<open>join\<close>, \<open>find\<close>, \<open>findIndex\<close> and \<open>splice\<close>.\<close>

lemma join_contains: "x \<in> set xs \<Longrightarrow> \<exists>pre post. join sep xs = pre @ x @ post"
proof (induction sep xs rule: join.induct)
  case (1 sep)
  then show ?case by simp
next
  case (2 sep y)
  then have "join sep [y] = [] @ x @ []" by simp
  then show ?case by blast
next
  case (3 sep y z zs)
  show ?case
  proof (cases "x = y")
    case True
    then have "join sep (y # z # zs) = [] @ x @ (sep @ join sep (z # zs))" by simp
    then show ?thesis by blast
  next
    case False
    with 3 obtain pre post where "join sep (z # zs) = pre @ x @ post" by auto
    then have "join sep (y # z # zs) = (y @ sep @ pre) @ x @ post" by simp
    then show ?thesis by blast
  qed
qed

lemma find_includes_Some:
  "a \<in> set (adrs (repoObjects s r)) \<Longrightarrow> r \<in> set rs \<Longrightarrow>
   \<exists>r0. find (\<lambda>repo. includes_ref (adrs (repoObjects s repo)) (Some a)) rs = Some r0
        \<and> r0 \<in> set rs \<and> a \<in> set (adrs (repoObjects s r0))"
  by (induction rs) auto

lemma findIndexFrom_no_match:
  "\<forall>x \<in> set xs. \<not> p x \<Longrightarrow> findIndexFrom i p xs = - 1"
  by (induction xs arbitrary: i) auto

lemma splice_minus_one:
  "splice_array (- 1) 1 [] xs = (if xs = [] then ([], []) else ([last xs], butlast xs))"
proof (cases "xs = []")
  case True
  then show ?thesis by (simp add: splice_array_def)
next
  case False
  then have len: "0 < length xs" by simp
  have a: "nat (max (int (length xs) + - 1) 0) = length xs - 1"
    using len by simp
  have d: "nat (min (max 1 0) (int (length xs) - max (int (length xs) + - 1) 0)) = 1"
    using len by simp
  have "take 1 (drop (length xs - 1) xs) = [last xs]"
    using False len by (metis One_nat_def append_butlast_last_id append_eq_conv_conj length_butlast take_all_iff  length_Cons list.size(3) order_refl)
  moreover have "take (length xs - 1) xs @ drop (length xs - 1 + 1) xs = butlast xs"
    using len by (simp add: butlast_conv_take)
  ultimately show ?thesis
    using False a d by (simp add: splice_array_def Let_def)
qed

lemma repoObjects_deleteAdr:
  "repoObjects (deleteAdr a repo s) =
     (repoObjects s)(repo :=
        (repoObjects s repo)
          \<lparr>deletedAdrs := Some (case deletedAdrs (repoObjects s repo) of None \<Rightarrow> [] | Some xs \<Rightarrow> xs),
           adrs := snd (splice_array (findIndex (\<lambda>adrEl. Some adrEl = a) (adrs (repoObjects s repo))) 1 []
                     (adrs (repoObjects s repo)))\<rparr>)"
  by (auto simp: deleteAdr_def Let_def split: prod.splits option.splits)

subsection \<open>The next id and its numeral\<close>










lemma length_decimal_pos: "0 < length (decimal n)"
  by (subst decimal.simps) simp


subsection \<open>Opening the first ADR\<close>

lemma filter_Cons_find: "filter P xs = y # ys \<Longrightarrow> find P xs = Some y"
  by (induction xs) (auto split: if_splits)

lemma filter_Nil_find: "filter P xs = [] \<Longrightarrow> find P xs = None"
  by (induction xs) (auto split: if_splits)

lemma find_Some_member: "find P xs = Some x \<Longrightarrow> x \<in> set xs \<and> P x"
  by (induction xs) (auto split: if_splits)

lemma find_first_nonempty_contains:
  "find (\<lambda>r. adrs (objs r) \<noteq> []) rs = Some r' \<Longrightarrow> a' \<in> set (adrs (objs r')) \<Longrightarrow>
   find (\<lambda>r. a' \<in> set (adrs (objs r))) rs = Some r'"
  by (induction rs) (auto split: if_splits)

lemma openAnyAdr_from_cleared:
  assumes "currentlyEditedAdr s = None"
  shows "openAnyAdr s =
     (case find (\<lambda>r. adrs (repoObjects s r) \<noteq> []) (addedRepositories s) of
        None \<Rightarrow> s
      | Some r' \<Rightarrow>
          (case adrs (repoObjects s r') of
             [] \<Rightarrow> s
           | a' # rest \<Rightarrow>
               if isValidAdr s (Some a') then
                 s\<lparr>currentRepository := Some r',
                   currentBranch := Some (activeBranch (repoObjects s r')),
                   currentlyEditedAdr := Some a',
                   emitted := emitted s @ [OpenAdr (Some a')]\<rparr>
               else s))"
proof (cases "filter (\<lambda>r. adrs (repoObjects s r) \<noteq> []) (addedRepositories s)")
  case Nil
  then show ?thesis
    by (simp add: openAnyAdr_def filter_Nil_find)
next
  case (Cons r' rs)
  then have f: "find (\<lambda>r. adrs (repoObjects s r) \<noteq> []) (addedRepositories s) = Some r'"
    by (rule filter_Cons_find)
  from Cons have "r' \<in> set (filter (\<lambda>r. adrs (repoObjects s r) \<noteq> []) (addedRepositories s))"
    by simp
  then have ne: "adrs (repoObjects s r') \<noteq> []" by simp
  then obtain a' rest where a': "adrs (repoObjects s r') = a' # rest"
    by (cases "adrs (repoObjects s r')") auto
  then have at0: "at (adrs (repoObjects s r')) 0 = Some a'" by (simp add: at_def)
  have "find (\<lambda>r. a' \<in> set (adrs (repoObjects s r))) (addedRepositories s) = Some r'"
    using f a' by (intro find_first_nonempty_contains) auto
  then have "openAdr (Some a') s =
      (if isValidAdr s (Some a') then
                 s\<lparr>currentRepository := Some r',
                   currentBranch := Some (activeBranch (repoObjects s r')),
                   currentlyEditedAdr := Some a',
                   emitted := emitted s @ [OpenAdr (Some a')]\<rparr>
               else s)"
    using assms by (simp add: openAdr_def Let_def)
  then show ?thesis
    using Cons f a' at0 by (simp add: openAnyAdr_def)
qed

lemmas eval_defs =
  removeRepository_def assertSomeAdrIsOpened_def openAnyAdr_def openAdr_def
  updateLocalStorageRepositories_def isValidAdrObject_def at_def Let_def

subsection \<open>Parsing what was serialised\<close>














section \<open>Properties\<close>

text \<open>
  C9. \<open>setMode(m)\<close> with \<open>m\<close> one of \<open>'basic'\<close>, \<open>'advanced'\<close>, \<open>'professional'\<close> sets the
  mode to \<open>m\<close>, writes \<open>m\<close> under \<open>'mode'\<close> in the persistence bridge and emits one
  \<open>set-mode\<close> event carrying \<open>m\<close>, changing nothing else; with any other value the store,
  the bridge and the emitted events are all exactly as before.
\<close>

theorem setMode_recognised_or_ignored:
  "(m \<in> {''basic'', ''advanced'', ''professional''} \<longrightarrow>
      mode (setMode m s) = m
    \<and> item_mode (localStorage (setMode m s)) = Some m
    \<and> emitted (setMode m s) = emitted s @ [SetMode m]
    \<and> setMode m s = s\<lparr>mode := m, localStorage := (localStorage s)\<lparr>item_mode := Some m\<rparr>,
                       emitted := emitted s @ [SetMode m]\<rparr>)
   \<and> (m \<notin> {''basic'', ''advanced'', ''professional''} \<longrightarrow> setMode m s = s)"
  by (simp add: setMode_def)

theorem setMode_recognised_or_ignored_witness:
  "''advanced'' \<in> {''basic'', ''advanced'', ''professional''}
   \<and> mode (setMode ''advanced'' (demoStore [0])) = ''advanced''
   \<and> item_mode (localStorage (setMode ''advanced'' (demoStore [0]))) = Some ''advanced''
   \<and> emitted (setMode ''advanced'' (demoStore [0])) = [SetMode ''advanced'']
   \<and> ''bogus'' \<notin> {''basic'', ''advanced'', ''professional''}
   \<and> setMode ''bogus'' (demoStore [0]) = demoStore [0]"
proof -
  have h1: "''advanced'' \<in> {''basic'', ''advanced'', ''professional''}" by simp
  have h2: "''bogus'' \<notin> {''basic'', ''advanced'', ''professional''}" by simp
  show ?thesis
    using h1 h2 setMode_recognised_or_ignored [of "''advanced''" "demoStore [0]"]
      setMode_recognised_or_ignored [of "''bogus''" "demoStore [0]"]
    by (simp add: demoStore_def)
qed

text \<open>
  C2. If some repository of \<open>repoList\<close> has the \<open>fullName\<close> of a repository already in
  \<open>addedRepositories\<close>, then \<open>addRepositories(repoList)\<close> throws a message and leaves the
  whole store as it was, and the \<open>fullName\<close> of every colliding repository of \<open>repoList\<close>
  occurs in the message, which is the fixed prefix followed by the colliding names in
  the order of \<open>repoList\<close>, joined by \<open>', '\<close>. If there is no collision, the call
  returns normally and \<open>addedRepositories\<close> is the old list followed by \<open>repoList\<close>.
\<close>

theorem addRepositories_rejects_or_appends:
  "((\<exists>r \<in> set repoList. \<exists>r' \<in> set (addedRepositories s).
        fullName (repoObjects s r) = fullName (repoObjects s r')) \<longrightarrow>
      (\<exists>msg. addRepositories repoList s = (Throw (Thrown msg), s)
         \<and> msg = alreadyAddedMessage @ join '', ''
               (map (\<lambda>r. fullName (repoObjects s r))
                  (filter (\<lambda>r. fullName (repoObjects s r)
                       \<in> (\<lambda>r'. fullName (repoObjects s r')) ` set (addedRepositories s))
                     repoList))
         \<and> (\<forall>r \<in> set repoList. \<forall>r' \<in> set (addedRepositories s).
               fullName (repoObjects s r) = fullName (repoObjects s r') \<longrightarrow>
               (\<exists>pre post. msg = pre @ fullName (repoObjects s r) @ post))))
   \<and> (\<not> (\<exists>r \<in> set repoList. \<exists>r' \<in> set (addedRepositories s).
        fullName (repoObjects s r) = fullName (repoObjects s r')) \<longrightarrow>
      fst (addRepositories repoList s) = Normal ()
      \<and> addedRepositories (snd (addRepositories repoList s)) = addedRepositories s @ repoList)"
proof (intro conjI impI)
  let ?name = "\<lambda>r. fullName (repoObjects s r)"
  let ?coll = "filter (\<lambda>r. ?name r \<in> set (map ?name (addedRepositories s))) repoList"
  assume "\<exists>r \<in> set repoList. \<exists>r' \<in> set (addedRepositories s). ?name r = ?name r'"
  then have ne: "?coll \<noteq> []"
    by (auto simp: filter_empty_conv)
  let ?msg = "alreadyAddedMessage @ join '', '' (map ?name ?coll)"
  have thrown: "addRepositories repoList s = (Throw (Thrown ?msg), s)"
    using ne by (simp add: addRepositories_def Let_def)
  have "\<exists>pre post. ?msg = pre @ ?name r @ post"
    if "r \<in> set repoList" "r' \<in> set (addedRepositories s)" "?name r = ?name r'" for r r'
  proof -
    from that have "r \<in> set ?coll" by force
    then have "?name r \<in> set (map ?name ?coll)" unfolding set_map by (rule imageI)
    from join_contains [OF this, of "'', ''"] obtain pre post
      where "join '', '' (map ?name ?coll) = pre @ ?name r @ post" by blast
    then have "?msg = (alreadyAddedMessage @ pre) @ ?name r @ post" by simp
    then show ?thesis by blast
  qed
  moreover have "?msg = alreadyAddedMessage @ join '', ''
               (map ?name (filter (\<lambda>r. ?name r \<in> ?name ` set (addedRepositories s)) repoList))"
    by simp
  ultimately show "\<exists>msg. addRepositories repoList s = (Throw (Thrown msg), s)
         \<and> msg = alreadyAddedMessage @ join '', ''
               (map ?name (filter (\<lambda>r. ?name r \<in> ?name ` set (addedRepositories s)) repoList))
         \<and> (\<forall>r \<in> set repoList. \<forall>r' \<in> set (addedRepositories s).
               ?name r = ?name r' \<longrightarrow> (\<exists>pre post. msg = pre @ ?name r @ post))"
    using thrown by blast
next
  let ?name = "\<lambda>r. fullName (repoObjects s r)"
  assume no: "\<not> (\<exists>r \<in> set repoList. \<exists>r' \<in> set (addedRepositories s). ?name r = ?name r')"
  then have e: "filter (\<lambda>r. ?name r \<in> set (map ?name (addedRepositories s))) repoList = []"
    by (auto simp: filter_empty_conv)
  show "fst (addRepositories repoList s) = Normal ()"
    using e by (simp add: addRepositories_def Let_def)
  show "addedRepositories (snd (addRepositories repoList s)) = addedRepositories s @ repoList"
    using e by (simp add: addRepositories_def Let_def)
qed

theorem addRepositories_rejects_or_appends_witness:
  "(\<exists>r \<in> set [3, 1]. \<exists>r' \<in> set (addedRepositories (demoStore [0])).
       fullName (repoObjects (demoStore [0]) r) = fullName (repoObjects (demoStore [0]) r'))
   \<and> snd (addRepositories [3, 1] (demoStore [0])) = demoStore [0]
   \<and> fst (addRepositories [3, 1] (demoStore [0])) \<noteq> Normal ()
   \<and> \<not> (\<exists>r \<in> set [3, 2]. \<exists>r' \<in> set (addedRepositories (demoStore [0])).
       fullName (repoObjects (demoStore [0]) r) = fullName (repoObjects (demoStore [0]) r'))
   \<and> fst (addRepositories [3, 2] (demoStore [0])) = Normal ()
   \<and> addedRepositories (snd (addRepositories [3, 2] (demoStore [0]))) = [0, 3, 2]"
proof -
  have h1: "\<exists>r \<in> set [3, 1]. \<exists>r' \<in> set (addedRepositories (demoStore [0])).
       fullName (repoObjects (demoStore [0]) r) = fullName (repoObjects (demoStore [0]) r')"
    by (simp add: demo_defs)
  have h2: "\<not> (\<exists>r \<in> set [3, 2]. \<exists>r' \<in> set (addedRepositories (demoStore [0])).
       fullName (repoObjects (demoStore [0]) r) = fullName (repoObjects (demoStore [0]) r'))"
    by (simp add: demo_defs)
  from h1 addRepositories_rejects_or_appends [of "[3, 1]" "demoStore [0]"]
  obtain msg where "addRepositories [3, 1] (demoStore [0]) = (Throw (Thrown msg), demoStore [0])"
    by blast
  then have c1: "snd (addRepositories [3, 1] (demoStore [0])) = demoStore [0]
      \<and> fst (addRepositories [3, 1] (demoStore [0])) \<noteq> Normal ()"
    by simp
  from h2 addRepositories_rejects_or_appends [of "[3, 2]" "demoStore [0]"]
  have c2: "fst (addRepositories [3, 2] (demoStore [0])) = Normal ()
      \<and> addedRepositories (snd (addRepositories [3, 2] (demoStore [0])))
          = addedRepositories (demoStore [0]) @ [3, 2]"
    by blast
  from h1 h2 c1 c2 show ?thesis by (simp add: demoStore_def)
qed

text \<open>
  C4. If \<open>a\<close> is a valid ADR that is an element of \<open>adrs\<close> of some added repository and is not
  the currently edited ADR, then \<open>openAdr(a)\<close> makes \<open>a\<close> the currently edited ADR, makes
  the repository that contains \<open>a\<close> (the first one in list order) the current repository,
  copies that repository's \<open>activeBranch\<close> into \<open>currentBranch\<close>, emits one \<open>open-adr\<close>
  event carrying \<open>a\<close>, and changes nothing else. If the argument is not a valid ADR or
  is in no added repository, the store is exactly as before; the call cannot throw.
\<close>

theorem openAdr_opens_or_ignores:
  "(isValidAdr s (Some a)
      \<and> (\<exists>r \<in> set (addedRepositories s). a \<in> set (adrs (repoObjects s r)))
      \<and> currentlyEditedAdr s \<noteq> Some a \<longrightarrow>
      (\<exists>r \<in> set (addedRepositories s). a \<in> set (adrs (repoObjects s r))
         \<and> find (\<lambda>repo. a \<in> set (adrs (repoObjects s repo))) (addedRepositories s) = Some r
         \<and> openAdr (Some a) s =
             s\<lparr>currentRepository := Some r,
               currentBranch := Some (activeBranch (repoObjects s r)),
               currentlyEditedAdr := Some a,
               emitted := emitted s @ [OpenAdr (Some a)]\<rparr>))
   \<and> (\<not> isValidAdr s x
        \<or> \<not> (\<exists>r \<in> set (addedRepositories s). includes_ref (adrs (repoObjects s r)) x) \<longrightarrow>
      openAdr x s = s)"
proof (intro conjI impI)
  assume h: "isValidAdr s (Some a)
      \<and> (\<exists>r \<in> set (addedRepositories s). a \<in> set (adrs (repoObjects s r)))
      \<and> currentlyEditedAdr s \<noteq> Some a"
  then obtain r where "r \<in> set (addedRepositories s)" "a \<in> set (adrs (repoObjects s r))"
    by blast
  from find_includes_Some [OF this(2) this(1)] obtain r0 where
    r0: "find (\<lambda>repo. includes_ref (adrs (repoObjects s repo)) (Some a)) (addedRepositories s) = Some r0"
      "r0 \<in> set (addedRepositories s)" "a \<in> set (adrs (repoObjects s r0))" by blast
  have "openAdr (Some a) s =
             s\<lparr>currentRepository := Some r0,
               currentBranch := Some (activeBranch (repoObjects s r0)),
               currentlyEditedAdr := Some a,
               emitted := emitted s @ [OpenAdr (Some a)]\<rparr>"
    using h r0(1) unfolding openAdr_def Let_def by auto
  with r0 show "\<exists>r \<in> set (addedRepositories s). a \<in> set (adrs (repoObjects s r))
         \<and> find (\<lambda>repo. a \<in> set (adrs (repoObjects s repo))) (addedRepositories s) = Some r
         \<and> openAdr (Some a) s =
             s\<lparr>currentRepository := Some r,
               currentBranch := Some (activeBranch (repoObjects s r)),
               currentlyEditedAdr := Some a,
               emitted := emitted s @ [OpenAdr (Some a)]\<rparr>"
    by auto
next
  assume "\<not> isValidAdr s x
        \<or> \<not> (\<exists>r \<in> set (addedRepositories s). includes_ref (adrs (repoObjects s r)) x)"
  then have "\<not> isValidAdr s x
     \<or> find (\<lambda>repo. includes_ref (adrs (repoObjects s repo)) x) (addedRepositories s) = None"
    by (auto simp: find_None_iff)
  then show "openAdr x s = s"
    by (auto simp: openAdr_def Let_def)
qed

theorem openAdr_opens_or_ignores_witness:
  "isValidAdr (demoStore [0, 2, 3]) (Some 2)
   \<and> (\<exists>r \<in> set (addedRepositories (demoStore [0, 2, 3])).
         2 \<in> set (adrs (repoObjects (demoStore [0, 2, 3]) r)))
   \<and> currentlyEditedAdr (demoStore [0, 2, 3]) \<noteq> Some 2
   \<and> openAdr (Some 2) (demoStore [0, 2, 3]) =
       (demoStore [0, 2, 3])\<lparr>currentRepository := Some 2, currentBranch := Some ''dev'',
          currentlyEditedAdr := Some 2, emitted := [OpenAdr (Some 2)]\<rparr>
   \<and> \<not> isValidAdr (demoStore [0, 2, 3]) (Some 1)
   \<and> openAdr (Some 1) (demoStore [0, 2, 3]) = demoStore [0, 2, 3]"
proof -
  let ?s = "demoStore [0, 2, 3]"
  have h1: "isValidAdr ?s (Some 2)
      \<and> (\<exists>r \<in> set (addedRepositories ?s). 2 \<in> set (adrs (repoObjects ?s r)))
      \<and> currentlyEditedAdr ?s \<noteq> Some 2"
    by (simp add: demo_defs isValidAdrObject_def)
  have h2: "\<not> isValidAdr ?s (Some 1)"
    by (simp add: demo_defs isValidAdrObject_def)
  from h1 openAdr_opens_or_ignores [of ?s 2 "Some 1"]
  obtain r where r: "find (\<lambda>repo. 2 \<in> set (adrs (repoObjects ?s repo))) (addedRepositories ?s) = Some r"
    "openAdr (Some 2) ?s =
       ?s\<lparr>currentRepository := Some r, currentBranch := Some (activeBranch (repoObjects ?s r)),
          currentlyEditedAdr := Some 2, emitted := emitted ?s @ [OpenAdr (Some 2)]\<rparr>"
    by blast
  from r(1) have "r = 2" by (simp add: demo_defs)
  with r(2) have c1: "openAdr (Some 2) ?s =
       ?s\<lparr>currentRepository := Some 2, currentBranch := Some ''dev'',
          currentlyEditedAdr := Some 2, emitted := [OpenAdr (Some 2)]\<rparr>"
    by (simp add: demo_defs)
  from h2 openAdr_opens_or_ignores [of ?s 2 "Some 1"]
  have c2: "openAdr (Some 1) ?s = ?s" by blast
  from h1 h2 c1 c2 show ?thesis by simp
qed

text \<open>
  C8. \<open>deleteAdr(adr, repo)\<close> never adds a record to \<open>repo.deletedAdrs\<close>: the array that
  \<open>concat\<close> builds is dropped, so afterwards \<open>repo.deletedAdrs\<close> holds exactly the records
  it held before, and is the empty array when it was absent.
\<close>

theorem deleteAdr_deletedAdrs_never_grows:
  "deletedAdrs (repoObjects (deleteAdr a repo s) repo) =
     Some (case deletedAdrs (repoObjects s repo) of None \<Rightarrow> [] | Some xs \<Rightarrow> xs)"
  by (simp add: repoObjects_deleteAdr)

theorem deleteAdr_deletedAdrs_never_grows_witness:
  "deletedAdrs (repoObjects (demoStore [0, 3]) 0) = None
   \<and> deletedAdrs (repoObjects (deleteAdr (Some 0) 0 (demoStore [0, 3])) 0) = Some []
   \<and> deletedAdrs (repoObjects (deleteAdr (Some 2) 3 (demoStore [0, 3])) 3) = Some []"
  using deleteAdr_deletedAdrs_never_grows [of "Some 0" 0 "demoStore [0, 3]"]
    deleteAdr_deletedAdrs_never_grows [of "Some 2" 3 "demoStore [0, 3]"]
  by (simp add: demo_defs)

text \<open>
  C10. If \<open>adr\<close> is not an element of \<open>repo.adrs\<close>, then \<open>findIndex\<close> yields \<open>-1\<close> and
  \<open>splice(-1, 1)\<close> counts from the end: a non-empty \<open>repo.adrs\<close> loses its last element
  and becomes one shorter, an empty \<open>repo.adrs\<close> stays empty.
\<close>

theorem deleteAdr_not_found_removes_last:
  assumes "\<forall>x \<in> set (adrs (repoObjects s repo)). Some x \<noteq> a"
  shows "(adrs (repoObjects s repo) \<noteq> [] \<longrightarrow>
            adrs (repoObjects (deleteAdr a repo s) repo) = butlast (adrs (repoObjects s repo))
          \<and> length (adrs (repoObjects (deleteAdr a repo s) repo))
              = length (adrs (repoObjects s repo)) - 1)
       \<and> (adrs (repoObjects s repo) = [] \<longrightarrow> adrs (repoObjects (deleteAdr a repo s) repo) = [])"
proof -
  have "findIndex (\<lambda>adrEl. Some adrEl = a) (adrs (repoObjects s repo)) = - 1"
    unfolding findIndex_def using assms by (intro findIndexFrom_no_match) auto
  then have "adrs (repoObjects (deleteAdr a repo s) repo)
      = snd (splice_array (- 1) 1 [] (adrs (repoObjects s repo)))"
    by (simp add: repoObjects_deleteAdr)
  then show ?thesis
    by (cases "adrs (repoObjects s repo) = []") (simp_all add: splice_minus_one)
qed

theorem deleteAdr_not_found_removes_last_witness:
  "0 \<notin> set (adrs (repoObjects (demoStore [0, 2]) 2))
   \<and> adrs (repoObjects (demoStore [0, 2]) 2) = [1, 2]
   \<and> adrs (repoObjects (deleteAdr (Some 0) 2 (demoStore [0, 2])) 2) = [1]
   \<and> 0 \<notin> set (adrs (repoObjects (demoStore [0, 1]) 1))
   \<and> adrs (repoObjects (demoStore [0, 1]) 1) = []
   \<and> adrs (repoObjects (deleteAdr (Some 0) 1 (demoStore [0, 1])) 1) = []"
proof -
  have h1: "\<forall>x \<in> set (adrs (repoObjects (demoStore [0, 2]) 2)). Some x \<noteq> Some 0"
    by (simp add: demo_defs)
  have h2: "\<forall>x \<in> set (adrs (repoObjects (demoStore [0, 1]) 1)). Some x \<noteq> Some 0"
    by (simp add: demo_defs)
  have e1: "adrs (repoObjects (demoStore [0, 2]) 2) = [1, 2]"
    by (simp add: demo_defs)
  have e2: "adrs (repoObjects (demoStore [0, 1]) 1) = []"
    by (simp add: demo_defs)
  from deleteAdr_not_found_removes_last [OF h1] e1
  have c1: "adrs (repoObjects (deleteAdr (Some 0) 2 (demoStore [0, 2])) 2) = [1]"
    by simp
  from deleteAdr_not_found_removes_last [OF h2] e2
  have c2: "adrs (repoObjects (deleteAdr (Some 0) 1 (demoStore [0, 1])) 1) = []"
    by simp
  from e1 e2 c1 c2 show ?thesis by simp
qed



text \<open>
  C6, as the code has it. If \<open>repo\<close> is not one of the added repositories,
  \<open>createNewAdr(repo)\<close> returns \<open>undefined\<close> and does run
  \<open>updateLocalStorageRepositories\<close>: the slot \<open>'addedRepositories'\<close> of the persistence
  bridge then holds the serialised repository list, and nothing else changes. If \<open>repo\<close> is
  one of the added repositories, the call returns the new record from inside the
  \<open>if\<close> block and the persistence bridge is left as it was.
\<close>

theorem createNewAdr_persists_only_on_failure:
  "(repo \<notin> set (addedRepositories s) \<longrightarrow>
      createNewAdr md repo s = (None, updateLocalStorageRepositories s)
      \<and> item_addedRepositories (localStorage (snd (createNewAdr md repo s)))
          = Some (JSON_stringify s (addedRepositories s)))
   \<and> (repo \<in> set (addedRepositories s) \<longrightarrow>
      fst (createNewAdr md repo s) = Some (nextAdr s)
      \<and> localStorage (snd (createNewAdr md repo s)) = localStorage s)"
  by (simp add: createNewAdr_def Let_def updateLocalStorageRepositories_def)

theorem createNewAdr_persists_only_on_failure_witness:
  "3 \<notin> set (addedRepositories (demoStore [0]))
   \<and> fst (createNewAdr ''# Title'' 3 (demoStore [0])) = None
   \<and> item_addedRepositories (localStorage (snd (createNewAdr ''# Title'' 3 (demoStore [0]))))
       = Some (JSON_stringify (demoStore [0]) [0])
   \<and> 0 \<in> set (addedRepositories (demoStore [0]))
   \<and> fst (createNewAdr ''# Title'' 0 (demoStore [0])) = Some 3
   \<and> localStorage (snd (createNewAdr ''# Title'' 0 (demoStore [0]))) = emptyStorage"
proof -
  have h1: "3 \<notin> set (addedRepositories (demoStore [0]))" by (simp add: demoStore_def)
  have h2: "0 \<in> set (addedRepositories (demoStore [0]))" by (simp add: demoStore_def)
  from h1 h2 createNewAdr_persists_only_on_failure [of 3 "demoStore [0]" "''# Title''"]
    createNewAdr_persists_only_on_failure [of 0 "demoStore [0]" "''# Title''"]
  show ?thesis by (simp add: demoStore_def updateLocalStorageRepositories_def)
qed

text \<open>
  The statement of C6 that the failure path skips the persistence write does not hold:
  in a store whose bridge is empty, \<open>createNewAdr\<close> on a repository that was never added
  returns \<open>undefined\<close> and leaves a value under \<open>'addedRepositories'\<close>.
\<close>

theorem createNewAdr_failure_persists_counterexample:
  "3 \<notin> set (addedRepositories (demoStore [0]))
   \<and> fst (createNewAdr ''# Title'' 3 (demoStore [0])) = None
   \<and> item_addedRepositories (localStorage (demoStore [0])) = None
   \<and> item_addedRepositories (localStorage (snd (createNewAdr ''# Title'' 3 (demoStore [0]))))
       \<noteq> None"
  by (simp add: createNewAdr_def Let_def updateLocalStorageRepositories_def demoStore_def
      emptyStorage_def)

text \<open>
  C3, as the code has it. Let \<open>a\<close> be the currently edited ADR, and let every added
  repository whose \<open>adrs\<close> contains \<open>a\<close> have the name of \<open>r\<close> (so \<open>a\<close> belongs to the
  repository that is removed and to no repository that stays). After
  \<open>removeRepository(r)\<close> there are two outcomes and no third: either another valid ADR
  is selected, together with an added repository that contains it and that repository's
  \<open>activeBranch\<close>, or the three selection fields are cleared. Which one happens is
  decided by the first remaining repository that has an ADR: when there is none, the
  selection is cleared; when there is one, its first ADR is selected if it is valid,
  and the selection is cleared if it is not.
\<close>

theorem removeRepository_repairs_selection:
  assumes "currentlyEditedAdr s = Some a"
    and "\<forall>r' \<in> set (addedRepositories s). a \<in> set (adrs (repoObjects s r')) \<longrightarrow>
           fullName (repoObjects s r') = fullName (repoObjects s r)"
  shows "((\<exists>a' r'. a' \<noteq> a \<and> selected a' r' (removeRepository r s))
            \<or> selectionCleared (removeRepository r s))
       \<and> ((\<forall>r' \<in> set (addedRepositories (removeRepository r s)).
              adrs (repoObjects s r') = []) \<longrightarrow> selectionCleared (removeRepository r s))
       \<and> (\<forall>r' a' rest.
             find (\<lambda>r'. adrs (repoObjects s r') \<noteq> []) (addedRepositories (removeRepository r s))
               = Some r'
             \<and> adrs (repoObjects s r') = a' # rest \<longrightarrow>
             (if isValidAdr s (Some a') then a' \<noteq> a \<and> selected a' r' (removeRepository r s)
              else selectionCleared (removeRepository r s)))"
proof -
  let ?rem = "filter (\<lambda>repo. fullName (repoObjects s repo) \<noteq> fullName (repoObjects s r))
                (addedRepositories s)"
  let ?s0 = "s\<lparr>addedRepositories := ?rem\<rparr>"
  let ?s' = "removeRepository r s"
  define sc where
    "sc = ?s0\<lparr>currentlyEditedAdr := None, currentRepository := None, currentBranch := None\<rparr>"
  have sc: "currentlyEditedAdr sc = None" "currentRepository sc = None"
    "currentBranch sc = None" "addedRepositories sc = ?rem"
    "repoObjects sc = repoObjects s" "adrObjects sc = adrObjects s"
    by (simp_all add: sc_def)
  have valid: "isValidAdr sc x = isValidAdr s x" for x
    by (cases x) (simp_all add: sc)
  have gone: "\<forall>r' \<in> set ?rem. a \<notin> set (adrs (repoObjects s r'))"
    using assms(2) by auto
  then have "\<not> list_ex (\<lambda>repo. includes_ref (adrs (repoObjects ?s0 repo)) (currentlyEditedAdr ?s0))
               (addedRepositories ?s0)"
    using assms(1) by (simp add: list_ex_iff)
  then have "assertSomeAdrIsOpened ?s0 = openAnyAdr sc"
    by (simp add: assertSomeAdrIsOpened_def sc_def)
  then have s': "?s' = updateLocalStorageRepositories (openAnyAdr sc)"
    by (simp add: removeRepository_def)
  have added: "addedRepositories ?s' = ?rem"
    by (simp add: s' sc)
  have opened: "openAnyAdr sc =
     (case find (\<lambda>r. adrs (repoObjects s r) \<noteq> []) ?rem of
        None \<Rightarrow> sc
      | Some r' \<Rightarrow>
          (case adrs (repoObjects s r') of
             [] \<Rightarrow> sc
           | a' # rest \<Rightarrow>
               if isValidAdr s (Some a') then
                 sc\<lparr>currentRepository := Some r',
                   currentBranch := Some (activeBranch (repoObjects s r')),
                   currentlyEditedAdr := Some a',
                   emitted := emitted sc @ [OpenAdr (Some a')]\<rparr>
               else sc))"
    using openAnyAdr_from_cleared [OF sc(1)] unfolding sc(4,5) valid .
  have none: "selectionCleared ?s'"
    if "find (\<lambda>r. adrs (repoObjects s r) \<noteq> []) ?rem = None"
    using that by (simp add: s' opened selectionCleared_def sc)
  have some: "if isValidAdr s (Some a') then a' \<noteq> a \<and> selected a' r' ?s'
              else selectionCleared ?s'"
    if f: "find (\<lambda>r. adrs (repoObjects s r) \<noteq> []) ?rem = Some r'"
      and a': "adrs (repoObjects s r') = a' # rest" for r' a' rest
  proof -
    from find_Some_member [OF f] have mem: "r' \<in> set ?rem" by blast
    with gone a' have ne: "a' \<noteq> a" by auto
    show ?thesis
    proof (cases "isValidAdr s (Some a')")
      case True
      then have "?s' = updateLocalStorageRepositories
          (sc\<lparr>currentRepository := Some r',
                   currentBranch := Some (activeBranch (repoObjects s r')),
                   currentlyEditedAdr := Some a',
                   emitted := emitted sc @ [OpenAdr (Some a')]\<rparr>)"
        using f a' by (simp add: s' opened)
      then have "selected a' r' ?s'"
        using True mem a' by (simp add: selected_def sc)
      with ne True show ?thesis by simp
    next
      case False
      then have "?s' = updateLocalStorageRepositories sc"
        using f a' by (simp add: s' opened)
      then show ?thesis using False by (simp add: selectionCleared_def sc)
    qed
  qed
  have part1: "(\<exists>a' r'. a' \<noteq> a \<and> selected a' r' ?s') \<or> selectionCleared ?s'"
  proof (cases "find (\<lambda>r. adrs (repoObjects s r) \<noteq> []) ?rem")
    case None
    then show ?thesis using none by simp
  next
    case (Some r')
    from find_Some_member [OF this] have "adrs (repoObjects s r') \<noteq> []" by blast
    then obtain a' rest where "adrs (repoObjects s r') = a' # rest"
      by (cases "adrs (repoObjects s r')") auto
    from some [OF Some this] show ?thesis by (auto split: if_splits)
  qed
  have part2: "(\<forall>r' \<in> set (addedRepositories ?s'). adrs (repoObjects s r') = [])
      \<longrightarrow> selectionCleared ?s'"
  proof
    assume "\<forall>r' \<in> set (addedRepositories ?s'). adrs (repoObjects s r') = []"
    then have "find (\<lambda>r. adrs (repoObjects s r) \<noteq> []) ?rem = None"
      unfolding added by (auto simp: find_None_iff)
    then show "selectionCleared ?s'" by (rule none)
  qed
  show ?thesis
    using part1 part2 some unfolding added by blast
qed

theorem removeRepository_repairs_selection_witness:
  "currentlyEditedAdr (demoStore [0, 3]) = Some 0
   \<and> addedRepositories (demoStore [0, 3]) = [0, 3]
   \<and> 0 \<notin> set (adrs (repoObjects (demoStore [0, 3]) 3))
   \<and> selected 2 3 (removeRepository 0 (demoStore [0, 3]))
   \<and> currentlyEditedAdr (demoStore [0, 2]) = Some 0
   \<and> addedRepositories (demoStore [0, 2]) = [0, 2]
   \<and> 0 \<notin> set (adrs (repoObjects (demoStore [0, 2]) 2))
   \<and> selectionCleared (removeRepository 0 (demoStore [0, 2]))"
proof -
  let ?s = "demoStore [0, 3]"
  let ?t = "demoStore [0, 2]"
  have h1: "currentlyEditedAdr ?s = Some 0" by (simp add: demoStore_def)
  have h2: "\<forall>r' \<in> set (addedRepositories ?s). 0 \<in> set (adrs (repoObjects ?s r')) \<longrightarrow>
         fullName (repoObjects ?s r') = fullName (repoObjects ?s 0)"
    by (simp add: demo_defs)
  have k1: "currentlyEditedAdr ?t = Some 0" by (simp add: demoStore_def)
  have k2: "\<forall>r' \<in> set (addedRepositories ?t). 0 \<in> set (adrs (repoObjects ?t r')) \<longrightarrow>
         fullName (repoObjects ?t r') = fullName (repoObjects ?t 0)"
    by (simp add: demo_defs)
  have rem: "addedRepositories (removeRepository 0 ?s) = [3]"
    "addedRepositories (removeRepository 0 ?t) = [2]"
    by (simp_all add: removeRepository_def demo_defs)
  have f: "find (\<lambda>r'. adrs (repoObjects ?s r') \<noteq> []) [3] = Some 3 \<and> adrs (repoObjects ?s 3) = 2 # []"
    "find (\<lambda>r'. adrs (repoObjects ?t r') \<noteq> []) [2] = Some 2 \<and> adrs (repoObjects ?t 2) = 1 # [2]"
    by (simp_all add: demo_defs)
  have v: "isValidAdr ?s (Some 2)" "\<not> isValidAdr ?t (Some 1)"
    by (simp_all add: demo_defs isValidAdrObject_def)
  from removeRepository_repairs_selection [OF h1 h2] f(1) v(1)
  have c1: "selected 2 3 (removeRepository 0 ?s)"
    unfolding rem by (metis (no_types, lifting))
  from removeRepository_repairs_selection [OF k1 k2] f(2) v(2)
  have c2: "selectionCleared (removeRepository 0 ?t)"
    unfolding rem by (metis (no_types, lifting))
  have e: "addedRepositories ?s = [0, 3]" "0 \<notin> set (adrs (repoObjects ?s 3))"
    "addedRepositories ?t = [0, 2]" "0 \<notin> set (adrs (repoObjects ?t 2))"
    by (simp_all add: demo_defs)
  from h1 k1 e c1 c2 show ?thesis by blast
qed

text \<open>
  The statement of C3 that the selection is cleared only when no repository with an ADR
  remains does not hold. Repository 2 holds the invalid ADR 1 followed by the valid ADR
  2; after repository 0, which owns the open ADR, is removed, repository 2 remains with
  both ADRs, and nothing is open.
\<close>

theorem removeRepository_skips_valid_adr_counterexample:
  "currentlyEditedAdr (demoStore [0, 2]) = Some 0
   \<and> adrs (repoObjects (demoStore [0, 2]) 0) = [0]
   \<and> addedRepositories (removeRepository 0 (demoStore [0, 2])) = [2]
   \<and> adrs (repoObjects (removeRepository 0 (demoStore [0, 2])) 2) = [1, 2]
   \<and> isValidAdr (removeRepository 0 (demoStore [0, 2])) (Some 2)
   \<and> currentlyEditedAdr (removeRepository 0 (demoStore [0, 2])) = None
   \<and> currentRepository (removeRepository 0 (demoStore [0, 2])) = None
   \<and> currentBranch (removeRepository 0 (demoStore [0, 2])) = None"
  by (simp add: eval_defs demo_defs)

text \<open>
  C1 says that every operation preserves the selection invariant.
  \<open>updateRepository\<close> does not: in a store that satisfies the invariant, with ADR 0 of
  repository 0 open, replacing repository 0 by a repository of the same name that has no
  ADR at that path calls \<open>openAdr(undefined)\<close>, which changes nothing. The call returns
  normally and leaves ADR 0 as the currently edited ADR and repository 0 as the current
  repository, although the only added repository is now repository 1, which has no ADR.
\<close>

theorem updateRepository_orphans_selection:
  "selectionInvariant (demoStore [0])
   \<and> fst (updateRepository 1 (demoStore [0])) = Normal ()
   \<and> addedRepositories (snd (updateRepository 1 (demoStore [0]))) = [1]
   \<and> adrs (repoObjects (snd (updateRepository 1 (demoStore [0]))) 1) = []
   \<and> currentlyEditedAdr (snd (updateRepository 1 (demoStore [0]))) = Some 0
   \<and> currentRepository (snd (updateRepository 1 (demoStore [0]))) = Some 0
   \<and> \<not> selectionInvariant (snd (updateRepository 1 (demoStore [0])))"
  by (simp add: updateRepository_def findIndex_def splice_array_def selectionInvariant_def
      selected_def eval_defs demo_defs)



end
